theory Spec2Isabelle
  imports Complex_Main "HOL-Library.Product_Lexorder"
begin

section \<open>Python values used by the scraper\<close>

text \<open>
  The scraper (\<^verbatim>\<open>src/uk_polling_api/scraper.py\<close>) works on Python \<^verbatim>\<open>str\<close> values, which
  are sequences of Unicode code points. A character is modelled by its code point, so the
  three dash glyphs the source names are single characters: en dash U+2013 = 8211,
  em dash U+2014 = 8212 and minus sign U+2212 = 8722.

  Modelling limits, stated once: \<^verbatim>\<open>\d\<close>, \<^verbatim>\<open>int()\<close> and \<^verbatim>\<open>float()\<close> are modelled on the ASCII
  digits 0-9 (decimal digits of other scripts count as ordinary characters here),
  \<^verbatim>\<open>str.lower()\<close> on the ASCII letters, integers are unbounded, and a Python \<^verbatim>\<open>float\<close> is
  represented by the exact decimal value of the literal it was read from (binary64
  rounding and overflow are not represented).
\<close>

type_synonym uchar = nat
type_synonym ustring = "nat list"

definition ustr :: "string \<Rightarrow> ustring" where
  "ustr s = map of_char s"

datatype py_error = ValueError | IndexError

definition ebind :: "py_error + 'a \<Rightarrow> ('a \<Rightarrow> py_error + 'b) \<Rightarrow> py_error + 'b" where
  "ebind m f = (case m of Inl e \<Rightarrow> Inl e | Inr x \<Rightarrow> f x)"

text \<open>\<^verbatim>\<open>str.isspace\<close> per character: the set \<^verbatim>\<open>str.strip()\<close> removes and \<^verbatim>\<open>\s\<close> matches.\<close>

definition isspace :: "uchar \<Rightarrow> bool" where
  "isspace c \<longleftrightarrow>
     (9 \<le> c \<and> c \<le> 13) \<or> (28 \<le> c \<and> c \<le> 32) \<or> c = 133 \<or> c = 160 \<or> c = 5760 \<or>
     (8192 \<le> c \<and> c \<le> 8202) \<or> c = 8232 \<or> c = 8233 \<or> c = 8239 \<or> c = 8287 \<or> c = 12288"

definition isdigit :: "uchar \<Rightarrow> bool" where
  "isdigit c \<longleftrightarrow> 48 \<le> c \<and> c \<le> 57"

definition isalpha_ascii :: "uchar \<Rightarrow> bool" where
  "isalpha_ascii c \<longleftrightarrow> (65 \<le> c \<and> c \<le> 90) \<or> (97 \<le> c \<and> c \<le> 122)"

definition py_strip :: "ustring \<Rightarrow> ustring" where
  "py_strip s = rev (dropWhile isspace (rev (dropWhile isspace s)))"

definition lower_char :: "uchar \<Rightarrow> uchar" where
  "lower_char c = (if 65 \<le> c \<and> c \<le> 90 then c + 32 else c)"

definition py_lower :: "ustring \<Rightarrow> ustring" where
  "py_lower s = map lower_char s"

text \<open>\<^verbatim>\<open>s.replace(c, new)\<close> for a one-character pattern \<^verbatim>\<open>c\<close>, the only use in the source.\<close>

definition replace1 :: "uchar \<Rightarrow> ustring \<Rightarrow> ustring \<Rightarrow> ustring" where
  "replace1 c new s = concat (map (\<lambda>x. if x = c then new else [x]) s)"

text \<open>\<^verbatim>\<open>needle in haystack\<close> on strings.\<close>

definition starts_with :: "ustring \<Rightarrow> ustring \<Rightarrow> bool" where
  "starts_with s needle \<longleftrightarrow> take (length needle) s = needle"

fun contains :: "ustring \<Rightarrow> ustring \<Rightarrow> bool" where
  "contains needle [] = (needle = [])"
| "contains needle (c # cs) = (starts_with (c # cs) needle \<or> contains needle cs)"

text \<open>
  \<^verbatim>\<open>re.search\<close>: the pattern is tried at every start position from the left, the end of
  the text included; the first position where it matches wins. The patterns of the source
  are given below as functions that match at the start of the remaining text.
\<close>

fun re_search :: "(ustring \<Rightarrow> 'a option) \<Rightarrow> ustring \<Rightarrow> 'a option" where
  "re_search m [] = m []"
| "re_search m (c # cs) = (case m (c # cs) of Some r \<Rightarrow> Some r | None \<Rightarrow> re_search m cs)"

definition digits_val :: "ustring \<Rightarrow> nat" where
  "digits_val ds = foldl (\<lambda>a c. 10 * a + (c - 48)) 0 ds"

text \<open>
  \<^verbatim>\<open>int(s)\<close> on a string: surrounding whitespace is dropped, one sign is allowed, and the
  rest is groups of digits separated by single underscores. Anything else is ValueError.
\<close>

fun int_literal :: "ustring \<Rightarrow> bool" where
  "int_literal [] = False"
| "int_literal [c] = isdigit c"
| "int_literal (c # d # r) =
     (isdigit c \<and> (if d = 95 then r \<noteq> [] \<and> int_literal r else int_literal (d # r)))"

definition py_int :: "ustring \<Rightarrow> py_error + int" where
  "py_int s0 =
     (let s = py_strip s0;
          neg = (s \<noteq> [] \<and> hd s = 45);
          body = (if s \<noteq> [] \<and> (hd s = 45 \<or> hd s = 43) then tl s else s)
      in if int_literal body
         then Inr ((if neg then - 1 else 1) * int (digits_val (filter isdigit body)))
         else Inl ValueError)"

text \<open>
  \<^verbatim>\<open>float(s)\<close> on the literals the scraper passes to it: digits, optionally followed by a
  point and further digits. Python accepts more (signs, exponents); the model answers
  ValueError there, so it raises at least as often as the code.
\<close>

definition decimal_value :: "ustring \<Rightarrow> rat" where
  "decimal_value s =
     (let ip = takeWhile isdigit s; fp = drop (length ip + 1) s
      in of_nat (digits_val ip) + of_nat (digits_val fp) / 10 ^ length fp)"

definition float_literal :: "ustring \<Rightarrow> bool" where
  "float_literal s =
     (let ip = takeWhile isdigit s; r = dropWhile isdigit s
      in ip \<noteq> [] \<and> (r = [] \<or> (hd r = 46 \<and> list_all isdigit (tl r))))"

definition py_float :: "ustring \<Rightarrow> py_error + rat" where
  "py_float s = (if float_literal s then Inr (decimal_value s) else Inl ValueError)"

section \<open>Field value parsers\<close>

text \<open>The pattern \<^verbatim>\<open>(\d+\.?\d*)\<close> of \<^verbatim>\<open>_parse_percentage\<close>, matched at the start of the text.\<close>

definition match_numeral :: "ustring \<Rightarrow> ustring option" where
  "match_numeral s =
     (let ds = takeWhile isdigit s; r = dropWhile isdigit s
      in if ds = [] then None
         else if r \<noteq> [] \<and> hd r = 46 then Some (ds @ [46] @ takeWhile isdigit (tl r))
         else Some ds)"

definition parse_percentage :: "ustring \<Rightarrow> py_error + rat option" where
  "parse_percentage text0 =
     (let text = replace1 8722 [] (replace1 8212 [] (replace1 8211 [] (py_strip text0)))
      in if text = [] \<or> text = ustr ''N/A'' then Inr None
         else (case re_search match_numeral text of
                 Some m \<Rightarrow> ebind (py_float m) (\<lambda>v. Inr (Some v))
               | None \<Rightarrow> Inr None))"

text \<open>The pattern \<^verbatim>\<open>(\d{3,})\<close> of \<^verbatim>\<open>_parse_sample_size\<close>.\<close>

definition match_digits3 :: "ustring \<Rightarrow> ustring option" where
  "match_digits3 s =
     (let ds = takeWhile isdigit s in if 3 \<le> length ds then Some ds else None)"

definition parse_sample_size :: "ustring \<Rightarrow> py_error + int option" where
  "parse_sample_size text0 =
     (let text = replace1 32 [] (replace1 44 [] (py_strip text0))
      in case re_search match_digits3 text of
           Some m \<Rightarrow> ebind (py_int m) (\<lambda>n. Inr (Some n))
         | None \<Rightarrow> Inr None)"

section \<open>Calendar dates\<close>

text \<open>
  A \<^verbatim>\<open>datetime.date\<close> is the triple (year, month, day); the lexicographic order on triples
  is the chronological order. The constructor raises ValueError outside the calendar.
\<close>

type_synonym date = "int \<times> int \<times> int"

definition date_month :: "date \<Rightarrow> int" where
  "date_month d = fst (snd d)"

definition date_min :: date where
  "date_min = (1, 1, 1)"

definition is_leap :: "int \<Rightarrow> bool" where
  "is_leap y \<longleftrightarrow> y mod 4 = 0 \<and> (y mod 100 \<noteq> 0 \<or> y mod 400 = 0)"

definition days_in_month :: "int \<Rightarrow> int \<Rightarrow> int" where
  "days_in_month y m =
     (if m = 2 then (if is_leap y then 29 else 28)
      else if m = 4 \<or> m = 6 \<or> m = 9 \<or> m = 11 then 30 else 31)"

definition py_date :: "int \<Rightarrow> int \<Rightarrow> int \<Rightarrow> py_error + date" where
  "py_date y m d =
     (if 1 \<le> y \<and> y \<le> 9999 \<and> 1 \<le> m \<and> m \<le> 12 \<and> 1 \<le> d \<and> d \<le> days_in_month y m
      then Inr (y, m, d) else Inl ValueError)"

definition months :: "(ustring \<times> int) list" where
  "months =
     [(ustr ''jan'', 1), (ustr ''feb'', 2), (ustr ''mar'', 3), (ustr ''apr'', 4),
      (ustr ''may'', 5), (ustr ''jun'', 6), (ustr ''jul'', 7), (ustr ''aug'', 8),
      (ustr ''sep'', 9), (ustr ''oct'', 10), (ustr ''nov'', 11), (ustr ''dec'', 12),
      (ustr ''january'', 1), (ustr ''february'', 2), (ustr ''march'', 3), (ustr ''april'', 4),
      (ustr ''june'', 6), (ustr ''july'', 7), (ustr ''august'', 8), (ustr ''september'', 9),
      (ustr ''october'', 10), (ustr ''november'', 11), (ustr ''december'', 12)]"

text \<open>The pattern \<^verbatim>\<open>20\d{2}\<close>.\<close>

definition match_year :: "ustring \<Rightarrow> ustring option" where
  "match_year s =
     (case s of
        a # b # c # d # _ \<Rightarrow>
          if a = 50 \<and> b = 48 \<and> isdigit c \<and> isdigit d then Some [a, b, c, d] else None
      | _ \<Rightarrow> None)"

text \<open>
  The pattern \<^verbatim>\<open>(\d{1,2})\s+([A-Za-z]+)\<close>. The greedy choices never need to be undone:
  after one or two digits the next character must be whitespace, which is no digit, and
  after the whitespace a letter, which is no whitespace.
\<close>

definition match_day_month :: "ustring \<Rightarrow> (ustring \<times> ustring) option" where
  "match_day_month s =
     (let ds = take 2 (takeWhile isdigit s);
          r = drop (length ds) s;
          ws = takeWhile isspace r;
          al = takeWhile isalpha_ascii (dropWhile isspace r)
      in if ds \<noteq> [] \<and> ws \<noteq> [] \<and> al \<noteq> [] then Some (ds, al) else None)"

text \<open>The pattern \<^verbatim>\<open>(\d{1,2})\<close>.\<close>

definition match_day :: "ustring \<Rightarrow> ustring option" where
  "match_day s = (let ds = take 2 (takeWhile isdigit s) in if ds \<noteq> [] then Some ds else None)"

text \<open>
  \<^verbatim>\<open>_parse_date_text(text, year)\<close>. The current year, \<^verbatim>\<open>date.today().year\<close>, is the
  parameter \<open>today_year\<close>. \<^verbatim>\<open>not year\<close> holds for None and for 0.
\<close>

definition parse_date_text :: "int \<Rightarrow> ustring \<Rightarrow> int option \<Rightarrow> py_error + date option" where
  "parse_date_text today_year text0 year0 =
     (let text = py_strip text0
      in if text = [] then Inr None
         else ebind
           (case year0 of
              Some y \<Rightarrow>
                if y \<noteq> 0 then Inr y
                else (case re_search match_year text of
                        Some m \<Rightarrow> py_int m | None \<Rightarrow> Inr today_year)
            | None \<Rightarrow>
                (case re_search match_year text of
                   Some m \<Rightarrow> py_int m | None \<Rightarrow> Inr today_year))
           (\<lambda>year.
              case re_search match_day_month text of
                Some (g1, g2) \<Rightarrow>
                  ebind (py_int g1)
                    (\<lambda>day.
                       case map_of months (py_lower g2) of
                         Some month \<Rightarrow>
                           if month \<noteq> 0 \<and> 1 \<le> day \<and> day \<le> 31
                           then (case py_date year month day of
                                   Inr d \<Rightarrow> Inr (Some d)
                                 | Inl ValueError \<Rightarrow> Inr None
                                 | Inl err \<Rightarrow> Inl err)
                           else Inr None
                       | None \<Rightarrow> Inr None)
              | None \<Rightarrow> Inr None))"

text \<open>
  \<^verbatim>\<open>re.split(pattern, text, maxsplit=1)\<close>, the pattern being the class of the four
  separators en dash, em dash, hyphen-minus (45) and minus sign. The result is the list
  \<^verbatim>\<open>parts\<close>: one element when no separator occurs, two otherwise.
\<close>

definition is_dash :: "uchar \<Rightarrow> bool" where
  "is_dash c \<longleftrightarrow> c = 8211 \<or> c = 8212 \<or> c = 45 \<or> c = 8722"

definition split_dash :: "ustring \<Rightarrow> ustring list" where
  "split_dash s =
     (let a = takeWhile (\<lambda>c. \<not> is_dash c) s; r = dropWhile (\<lambda>c. \<not> is_dash c) s
      in if r = [] then [s] else [a, tl r])"

definition parse_fieldwork_dates :: "int \<Rightarrow> ustring \<Rightarrow> py_error + (date option \<times> date option)" where
  "parse_fieldwork_dates today_year text0 =
     (let text = py_strip text0
      in if text = [] then Inr (None, None)
         else ebind
           (case re_search match_year text of
              Some m \<Rightarrow> py_int m | None \<Rightarrow> Inr today_year)
           (\<lambda>year.
              case split_dash text of
                [p0, p1] \<Rightarrow>
                  ebind (parse_date_text today_year (py_strip p1) (Some year))
                    (\<lambda>end_date.
                       ebind (parse_date_text today_year (py_strip p0) (Some year))
                         (\<lambda>start_date.
                            case (start_date, end_date) of
                              (None, Some e) \<Rightarrow>
                                (case re_search match_day (py_strip p0) of
                                   Some m \<Rightarrow>
                                     (case ebind (py_int m) (py_date year (date_month e)) of
                                        Inr d \<Rightarrow> Inr (Some d, end_date)
                                      | Inl ValueError \<Rightarrow> Inr (start_date, end_date)
                                      | Inl err \<Rightarrow> Inl err)
                                 | None \<Rightarrow> Inr (start_date, end_date))
                            | _ \<Rightarrow> Inr (start_date, end_date)))
              | _ \<Rightarrow> ebind (parse_date_text today_year text (Some year)) (\<lambda>d. Inr (d, d))))"

section \<open>Column identification\<close>

text \<open>
  The canonical field names of the source are strings; here they are constructors:
  the seven party codes \<^verbatim>\<open>con, lab, lib_dem, reform, green, snp, other\<close> and the
  other field names \<^verbatim>\<open>fieldwork, pollster, client, sample_size, area, lead\<close>.
\<close>

datatype party = Con | Lab | LibDem | Reform | Green | SNP | Other

datatype field_name = Party party | Fieldwork | Pollster | Client | SampleSize | Area | Lead

definition PARTY_COLUMN_MAP :: "(ustring \<times> party) list" where
  "PARTY_COLUMN_MAP =
     [(ustr ''con'', Con), (ustr ''conservative'', Con),
      (ustr ''lab'', Lab), (ustr ''labour'', Lab),
      (ustr ''lib dem'', LibDem), (ustr ''libdem'', LibDem), (ustr ''ld'', LibDem),
      (ustr ''liberal democrats'', LibDem),
      (ustr ''reform'', Reform), (ustr ''reform uk'', Reform), (ustr ''ref'', Reform),
      (ustr ''green'', Green), (ustr ''greens'', Green),
      (ustr ''snp'', SNP),
      (ustr ''other'', Other), (ustr ''others'', Other)]"

text \<open>The body of the loop of \<^verbatim>\<open>_identify_columns\<close> for one header cell.\<close>

definition classify_header :: "ustring \<Rightarrow> field_name option" where
  "classify_header header =
     (let h = py_lower (py_strip header)
      in case map_of PARTY_COLUMN_MAP h of
           Some p \<Rightarrow> Some (Party p)
         | None \<Rightarrow>
             if contains (ustr ''date'') h \<or> contains (ustr ''fieldwork'') h then Some Fieldwork
             else if contains (ustr ''polling'') h \<or> contains (ustr ''pollster'') h
                     \<or> contains (ustr ''organisation'') h then Some Pollster
             else if contains (ustr ''client'') h \<or> contains (ustr ''commissioner'') h
                  then Some Client
             else if contains (ustr ''sample'') h \<or> contains (ustr ''size'') h
                  then Some SampleSize
             else if contains (ustr ''area'') h then Some Area
             else if contains (ustr ''lead'') h then Some Lead
             else None)"

text \<open>
  \<^verbatim>\<open>col_map\<close> is a dict keyed by the column index, filled in increasing index order; it is
  the list of its items in that order.
\<close>

type_synonym col_map = "(nat \<times> field_name) list"

definition identify_columns :: "ustring list \<Rightarrow> col_map" where
  "identify_columns header_cells =
     List.map_filter (\<lambda>(i, header). map_option (Pair i) (classify_header header))
       (enumerate 0 header_cells)"

section \<open>Grid builder\<close>

text \<open>
  The input of \<^verbatim>\<open>_expand_rowspans\<close> is a table element of the HTML parser. The model takes
  what the source reads from it: the rows \<^verbatim>\<open>table.find_all("tr")\<close>, for each row its cells
  \<^verbatim>\<open>row.find_all(["th", "td"])\<close>, and for each cell the attributes \<^verbatim>\<open>rowspan\<close> and
  \<^verbatim>\<open>colspan\<close> (None when absent) and the text \<^verbatim>\<open>cell.get_text(strip=True)\<close>; and, for the
  table locator, the text \<^verbatim>\<open>table.get_text(strip=True)\<close>.
\<close>

record cell =
  rowspan_attr :: "ustring option"
  colspan_attr :: "ustring option"
  cell_text :: ustring

record table =
  table_text :: ustring
  table_rows :: "cell list list"

type_synonym grid = "ustring option list list"

text \<open>\<^verbatim>\<open>int(cell.get(name, 1))\<close>.\<close>

definition attr_int :: "ustring option \<Rightarrow> py_error + int" where
  "attr_int a = (case a of None \<Rightarrow> Inr 1 | Some s \<Rightarrow> py_int s)"

text \<open>
  A Python index into a list of length \<open>n\<close>: a position from the front when it is not
  negative, from the end when it is; out of range it raises IndexError.
\<close>

definition py_index :: "nat \<Rightarrow> int \<Rightarrow> nat option" where
  "py_index n i =
     (if 0 \<le> i \<and> i < int n then Some (nat i)
      else if i < 0 \<and> - int n \<le> i then Some (nat (int n + i))
      else None)"

definition py_get :: "'a list \<Rightarrow> int \<Rightarrow> py_error + 'a" where
  "py_get xs i = (case py_index (length xs) i of Some k \<Rightarrow> Inr (xs ! k) | None \<Rightarrow> Inl IndexError)"

definition py_set :: "'a list \<Rightarrow> int \<Rightarrow> 'a \<Rightarrow> py_error + 'a list" where
  "py_set xs i v =
     (case py_index (length xs) i of Some k \<Rightarrow> Inr (xs[k := v]) | None \<Rightarrow> Inl IndexError)"

text \<open>A \<^verbatim>\<open>for\<close> loop over a list whose body may raise.\<close>

fun efold :: "('a \<Rightarrow> 's \<Rightarrow> py_error + 's) \<Rightarrow> 'a list \<Rightarrow> 's \<Rightarrow> py_error + 's" where
  "efold f [] s = Inr s"
| "efold f (x # xs) s = (case f x s of Inl e \<Rightarrow> Inl e | Inr s' \<Rightarrow> efold f xs s')"

text \<open>First pass: \<^verbatim>\<open>cols_in_row\<close> for one row, and \<^verbatim>\<open>max_cols\<close> over the rows.\<close>

definition cols_in_row :: "cell list \<Rightarrow> py_error + int" where
  "cols_in_row cells =
     efold (\<lambda>c n. ebind (attr_int (colspan_attr c)) (\<lambda>colspan. Inr (n + colspan))) cells 0"

definition first_pass :: "cell list list \<Rightarrow> py_error + int" where
  "first_pass rows =
     efold (\<lambda>row max_cols. ebind (cols_in_row row) (\<lambda>n. Inr (max max_cols n))) rows 0"

text \<open>The \<^verbatim>\<open>while\<close> loop that moves \<^verbatim>\<open>col_idx\<close> to the next empty column of the row.\<close>

function advance :: "int \<Rightarrow> ustring option list \<Rightarrow> int \<Rightarrow> py_error + int" where
  "advance max_cols row col_idx =
     (if col_idx < max_cols
      then (case py_get row col_idx of
              Inl e \<Rightarrow> Inl e
            | Inr v \<Rightarrow> if v \<noteq> None then advance max_cols row (col_idx + 1) else Inr col_idx)
      else Inr col_idx)"
  by pat_completeness auto
termination
  by (relation "measure (\<lambda>(max_cols, row, col_idx). nat (max_cols - col_idx))") auto

text \<open>The assignment \<^verbatim>\<open>grid[r][c] = text\<close>.\<close>

definition set_cell :: "grid \<Rightarrow> int \<Rightarrow> int \<Rightarrow> ustring \<Rightarrow> py_error + grid" where
  "set_cell g r c text =
     ebind (py_get g r) (\<lambda>row. ebind (py_set row c (Some text)) (\<lambda>row'. py_set g r row'))"

text \<open>The two nested \<^verbatim>\<open>for\<close> loops over \<^verbatim>\<open>range(rowspan)\<close> and \<^verbatim>\<open>range(colspan)\<close>.\<close>

definition fill_rect :: "int \<Rightarrow> int \<Rightarrow> int \<Rightarrow> int \<Rightarrow> int \<Rightarrow> ustring \<Rightarrow> grid \<Rightarrow> py_error + grid" where
  "fill_rect max_cols row_idx col_idx rowspan colspan text g0 =
     efold (\<lambda>dr. efold (\<lambda>dc g.
              let r = row_idx + int dr; c = col_idx + int dc
              in if r < int (length g) \<and> c < max_cols then set_cell g r c text else Inr g)
            [0..<nat colspan])
       [0..<nat rowspan] g0"

text \<open>The loop over the cells of one row, with its \<^verbatim>\<open>break\<close>.\<close>

fun place_cells :: "int \<Rightarrow> int \<Rightarrow> cell list \<Rightarrow> int \<Rightarrow> grid \<Rightarrow> py_error + grid" where
  "place_cells max_cols row_idx [] col_idx g = Inr g"
| "place_cells max_cols row_idx (c # cells) col_idx g =
     (case ebind (py_get g row_idx) (\<lambda>row. advance max_cols row col_idx) of
        Inl e \<Rightarrow> Inl e
      | Inr col_idx' \<Rightarrow>
          if col_idx' \<ge> max_cols then Inr g
          else (case ebind (attr_int (rowspan_attr c)) (\<lambda>rowspan.
                     ebind (attr_int (colspan_attr c)) (\<lambda>colspan.
                     ebind (fill_rect max_cols row_idx col_idx' rowspan colspan (cell_text c) g)
                       (\<lambda>g'. Inr (g', col_idx' + colspan)))) of
                  Inl e \<Rightarrow> Inl e
                | Inr (g', col_idx'') \<Rightarrow> place_cells max_cols row_idx cells col_idx'' g'))"

text \<open>The loop over the rows, \<^verbatim>\<open>row_idx\<close> counting from the given index.\<close>

fun second_pass :: "int \<Rightarrow> int \<Rightarrow> cell list list \<Rightarrow> grid \<Rightarrow> py_error + grid" where
  "second_pass max_cols row_idx [] g = Inr g"
| "second_pass max_cols row_idx (row # rows) g =
     (case place_cells max_cols row_idx row 0 g of
        Inl e \<Rightarrow> Inl e
      | Inr g' \<Rightarrow> second_pass max_cols (row_idx + 1) rows g')"

definition expand_rowspans :: "table \<Rightarrow> py_error + ustring list list" where
  "expand_rowspans t =
     (let rows = table_rows t
      in if rows = [] then Inr []
         else ebind (first_pass rows) (\<lambda>max_cols.
              ebind (second_pass max_cols 0 rows
                       (replicate (length rows) (replicate (nat max_cols) None)))
                (\<lambda>g. Inr (map (map (\<lambda>c. case c of None \<Rightarrow> [] | Some s \<Rightarrow> s)) g))))"

section \<open>Poll records\<close>

text \<open>The model \<^verbatim>\<open>PollResult\<close> of \<^verbatim>\<open>src/uk_polling_api/models.py\<close>.\<close>

record PollResult =
  pollster :: ustring
  client :: "ustring option"
  fieldwork_start :: "date option"
  fieldwork_end :: "date option"
  sample_size :: "int option"
  con :: "rat option"
  lab :: "rat option"
  lib_dem :: "rat option"
  reform :: "rat option"
  green :: "rat option"
  snp :: "rat option"
  other :: "rat option"
  lead_party :: "ustring option"
  lead_pct :: "rat option"
  source_url :: "ustring option"

text \<open>Reading a party field of a record by its party code.\<close>

fun party_value :: "PollResult \<Rightarrow> party \<Rightarrow> rat option" where
  "party_value r Con = con r"
| "party_value r Lab = lab r"
| "party_value r LibDem = lib_dem r"
| "party_value r Reform = reform r"
| "party_value r Green = green r"
| "party_value r SNP = snp r"
| "party_value r Other = other r"

fun party_display :: "party \<Rightarrow> ustring" where
  "party_display Con = ustr ''Conservative''"
| "party_display Lab = ustr ''Labour''"
| "party_display LibDem = ustr ''Liberal Democrats''"
| "party_display Reform = ustr ''Reform UK''"
| "party_display Green = ustr ''Green''"
| "party_display SNP = ustr ''SNP''"
| "party_display Other = ustr ''Other''"

text \<open>
  \<^verbatim>\<open>round(x, 1)\<close>: to the nearest multiple of one tenth, a tie going to the even
  neighbour.
\<close>

definition round_half_even :: "rat \<Rightarrow> int" where
  "round_half_even x =
     (let f = \<lfloor>x\<rfloor>; d = x - of_int f
      in if d < 1 / 2 then f else if 1 / 2 < d then f + 1 else if even f then f else f + 1)"

definition py_round1 :: "rat \<Rightarrow> rat" where
  "py_round1 x = of_int (round_half_even (x * 10)) / 10"

section \<open>Row mapper and scrape\<close>

text \<open>
  A Python dict keeps its keys in insertion order; assigning to a key that is present
  keeps the key's position. \<^verbatim>\<open>party_values\<close> is such a dict, held as the list of its items.
\<close>

fun dict_set :: "('k \<times> 'v) list \<Rightarrow> 'k \<Rightarrow> 'v \<Rightarrow> ('k \<times> 'v) list" where
  "dict_set [] k v = [(k, v)]"
| "dict_set ((k', v') # kvs) k v =
     (if k' = k then (k, v) # kvs else (k', v') # dict_set kvs k v)"

type_synonym party_values = "(party \<times> rat option) list"

text \<open>\<^verbatim>\<open>d.get(k)\<close> on a dict whose values may be None: an absent key and None read alike.\<close>

definition dict_get :: "('k \<times> 'v option) list \<Rightarrow> 'k \<Rightarrow> 'v option" where
  "dict_get d k = (case map_of d k of Some v \<Rightarrow> v | None \<Rightarrow> None)"

text \<open>
  The dict \<^verbatim>\<open>data\<close> is only read with \<^verbatim>\<open>data.get\<close>, so an absent key and the value None
  are the same to the reader; each key is one optional field.
\<close>

record row_data =
  d_pollster :: "ustring option"
  d_client :: "ustring option"
  d_fieldwork_start :: "date option"
  d_fieldwork_end :: "date option"
  d_sample_size :: "int option"

definition empty_data :: row_data where
  "empty_data = \<lparr>d_pollster = None, d_client = None, d_fieldwork_start = None,
                 d_fieldwork_end = None, d_sample_size = None\<rparr>"

text \<open>The body of the loop \<^verbatim>\<open>for col_idx, field in col_map.items()\<close>.\<close>

definition apply_field ::
  "int \<Rightarrow> ustring list \<Rightarrow> nat \<times> field_name \<Rightarrow> row_data \<times> party_values
     \<Rightarrow> py_error + (row_data \<times> party_values)" where
  "apply_field today_year row item st =
     (case item of (col_idx, field) \<Rightarrow>
      case st of (data, pv) \<Rightarrow>
        if col_idx \<ge> length row then Inr st
        else
          let cell_text = row ! col_idx
          in case field of
               Fieldwork \<Rightarrow>
                 ebind (parse_fieldwork_dates today_year cell_text)
                   (\<lambda>(fw_start, fw_end).
                      Inr (data\<lparr>d_fieldwork_start := fw_start, d_fieldwork_end := fw_end\<rparr>, pv))
             | Pollster \<Rightarrow> Inr (data\<lparr>d_pollster := Some cell_text\<rparr>, pv)
             | Client \<Rightarrow>
                 Inr (data\<lparr>d_client := (if cell_text \<noteq> [] then Some cell_text else None)\<rparr>, pv)
             | SampleSize \<Rightarrow>
                 ebind (parse_sample_size cell_text) (\<lambda>n. Inr (data\<lparr>d_sample_size := n\<rparr>, pv))
             | Party p \<Rightarrow>
                 ebind (parse_percentage cell_text) (\<lambda>v. Inr (data, dict_set pv p v))
             | Area \<Rightarrow> Inr st
             | Lead \<Rightarrow> Inr st)"

text \<open>The bodies of the two loops that find the leading and the second value.\<close>

definition best_step :: "party \<times> rat option \<Rightarrow> party option \<times> rat \<Rightarrow> party option \<times> rat" where
  "best_step item st =
     (case item of (p, v) \<Rightarrow>
      case st of (best_party, best_val) \<Rightarrow>
        (case v of
           Some x \<Rightarrow> if x > best_val then (Some p, x) else (best_party, best_val)
         | None \<Rightarrow> (best_party, best_val)))"

definition second_step :: "party option \<Rightarrow> party \<times> rat option \<Rightarrow> rat \<Rightarrow> rat" where
  "second_step best_party item second_val =
     (case item of (p, v) \<Rightarrow>
        (case v of
           Some x \<Rightarrow> if Some p \<noteq> best_party \<and> x > second_val then x else second_val
         | None \<Rightarrow> second_val))"

text \<open>The body of the loop over the data rows: None is \<^verbatim>\<open>continue\<close>.\<close>

definition row_to_poll ::
  "int \<Rightarrow> col_map \<Rightarrow> ustring \<Rightarrow> ustring list \<Rightarrow> py_error + PollResult option" where
  "row_to_poll today_year cm url row =
     (let non_empty = filter (\<lambda>c. py_strip c \<noteq> []) row
      in if length non_empty < 3 then Inr None
         else ebind (efold (apply_field today_year row) cm (empty_data, []))
           (\<lambda>(data, pv).
              let name = py_strip (case d_pollster data of Some s \<Rightarrow> s | None \<Rightarrow> [])
              in if name = [] \<or> list_all (\<lambda>(p, v). v = None) pv then Inr None
                 else
                   let (best_party, best_val) = fold best_step pv (None, - 1);
                       second_val = fold (second_step best_party) pv (- 1);
                       lead = (if second_val \<ge> 0 then Some (py_round1 (best_val - second_val))
                               else None)
                   in Inr (Some
                        \<lparr>pollster = name,
                         client = d_client data,
                         fieldwork_start = d_fieldwork_start data,
                         fieldwork_end = d_fieldwork_end data,
                         sample_size = d_sample_size data,
                         con = dict_get pv Con,
                         lab = dict_get pv Lab,
                         lib_dem = dict_get pv LibDem,
                         reform = dict_get pv Reform,
                         green = dict_get pv Green,
                         snp = dict_get pv SNP,
                         other = dict_get pv Other,
                         lead_party = map_option party_display best_party,
                         lead_pct = lead,
                         source_url = Some url\<rparr>)))"

text \<open>The table locator: the first table whose lower-cased text contains the four tokens.\<close>

definition is_target :: "table \<Rightarrow> bool" where
  "is_target t =
     (let text = py_lower (table_text t)
      in list_all (\<lambda>p. contains p text)
           [ustr ''con'', ustr ''lab'', ustr ''reform'', ustr ''green''])"

text \<open>The header detector: the test of one candidate row, and the scan of the first rows.\<close>

definition major_party :: "field_name \<Rightarrow> bool" where
  "major_party v \<longleftrightarrow>
     v = Party Con \<or> v = Party Lab \<or> v = Party LibDem \<or> v = Party Reform \<or> v = Party Green"

definition party_cols :: "col_map \<Rightarrow> field_name list" where
  "party_cols candidate_map = remdups (filter major_party (map snd candidate_map))"

definition header_ok :: "ustring list \<Rightarrow> bool" where
  "header_ok row \<longleftrightarrow> 3 \<le> length (party_cols (identify_columns row))"

definition find_header :: "ustring list list \<Rightarrow> (nat \<times> col_map) option" where
  "find_header grid =
     (case find (\<lambda>i. header_ok (grid ! i)) [0..<min 4 (length grid)] of
        None \<Rightarrow> None
      | Some i \<Rightarrow> Some (i, identify_columns (grid ! i)))"

text \<open>
  \<^verbatim>\<open>polls.sort(key=..., reverse=True)\<close>: a stable sort in descending key order, which
  Python performs as reverse, stable ascending sort, reverse.
\<close>

definition sort_key_of :: "PollResult \<Rightarrow> date" where
  "sort_key_of p = (case fieldwork_end p of Some d \<Rightarrow> d | None \<Rightarrow> date_min)"

definition sort_polls :: "PollResult list \<Rightarrow> PollResult list" where
  "sort_polls polls = rev (sort_key sort_key_of (rev polls))"

text \<open>
  \<^verbatim>\<open>scrape_polls\<close> from the point where the page has been fetched and parsed: \<open>tables\<close> is
  the list \<^verbatim>\<open>soup.find_all("table", class_="wikitable")\<close>, \<open>url\<close> the argument of the
  function and \<open>today_year\<close> the current year.
\<close>

definition scrape_polls :: "int \<Rightarrow> table list \<Rightarrow> ustring \<Rightarrow> py_error + PollResult list" where
  "scrape_polls today_year tables url =
     (if tables = [] then Inr []
      else case find is_target tables of
             None \<Rightarrow> Inr []
           | Some target_table \<Rightarrow>
               ebind (expand_rowspans target_table)
                 (\<lambda>grid.
                    if length grid < 3 then Inr []
                    else case find_header grid of
                           None \<Rightarrow> Inr []
                         | Some (header_row_idx, cm) \<Rightarrow>
                             ebind
                               (efold (\<lambda>row polls.
                                         ebind (row_to_poll today_year cm url row)
                                           (\<lambda>r. Inr (case r of None \<Rightarrow> polls
                                                      | Some p \<Rightarrow> polls @ [p])))
                                  (drop (header_row_idx + 1) grid) [])
                               (\<lambda>polls. Inr (sort_polls polls))))"

section \<open>The parsers as the specification words them\<close>

text \<open>
  The specification describes the percentage parser in words: strip surrounding
  whitespace and the dash glyphs; empty or the literal N/A is missing; otherwise the first
  decimal-or-integer numeral substring is read as a value; no numeral is missing. The
  definitions of this section follow those words, not the source.
\<close>

definition spec_numeral :: "ustring \<Rightarrow> ustring option" where
  "spec_numeral s =
     (let t = dropWhile (\<lambda>c. \<not> isdigit c) s
      in if t = [] then None
         else let ip = takeWhile isdigit t; r = dropWhile isdigit t
              in Some (if r \<noteq> [] \<and> hd r = 46 then ip @ [46] @ takeWhile isdigit (tl r)
                       else ip))"

definition spec_parse_percentage :: "ustring \<Rightarrow> rat option" where
  "spec_parse_percentage text =
     (let s = filter (\<lambda>c. c \<noteq> 8211 \<and> c \<noteq> 8212 \<and> c \<noteq> 8722) (py_strip text)
      in if s = [] \<or> s = ustr ''N/A'' then None
         else map_option decimal_value (spec_numeral s))"

text \<open>
  The date-range parser in the words of the specification: a four-digit year anywhere in
  the text is the shared year, the current year when there is none.
\<close>

definition spec_shared_year :: "int \<Rightarrow> ustring \<Rightarrow> int" where
  "spec_shared_year today_year t =
     (case re_search match_year t of Some m \<Rightarrow> int (digits_val m) | None \<Rightarrow> today_year)"


section \<open>Well-formed span attributes and painted grids\<close>





section \<open>Example tables\<close>

definition text_cell :: "string \<Rightarrow> cell" where
  "text_cell s = \<lparr>rowspan_attr = None, colspan_attr = None, cell_text = ustr s\<rparr>"

definition span_cell :: "string option \<Rightarrow> string option \<Rightarrow> string \<Rightarrow> cell" where
  "span_cell rs cs s =
     \<lparr>rowspan_attr = map_option ustr rs, colspan_attr = map_option ustr cs, cell_text = ustr s\<rparr>"


section \<open>Notions used to state the properties of the emitted records\<close>

text \<open>The seven party codes in the canonical enumeration order.\<close>

definition party_codes :: "party list" where
  "party_codes = [Con, Lab, LibDem, Reform, Green, SNP, Other]"

text \<open>The present party values of a record, and those of the parties other than \<open>b\<close>.\<close>

definition present_values :: "PollResult \<Rightarrow> rat list" where
  "present_values p = List.map_filter (party_value p) party_codes"

definition other_values :: "PollResult \<Rightarrow> party \<Rightarrow> rat list" where
  "other_values p b = List.map_filter (party_value p) (filter (\<lambda>q. q \<noteq> b) party_codes)"

text \<open>
  The parties of a column map in the order of their first column from the left: the
  column map lists the columns by increasing index.
\<close>

definition party_columns :: "col_map \<Rightarrow> party list" where
  "party_columns cm =
     List.map_filter (\<lambda>item. case snd item of Party q \<Rightarrow> Some q | _ \<Rightarrow> None) cm"

fun first_occurrences :: "'a list \<Rightarrow> 'a list" where
  "first_occurrences [] = []"
| "first_occurrences (x # xs) = x # filter (\<lambda>y. y \<noteq> x) (first_occurrences xs)"

definition party_order :: "col_map \<Rightarrow> party list" where
  "party_order cm = first_occurrences (party_columns cm)"

text \<open>The present values of a dict of party values, and the first key holding a value.\<close>

definition present :: "party_values \<Rightarrow> rat set" where
  "present pv = {x. \<exists>k. (k, Some x) \<in> set pv}"

definition first_with :: "party_values \<Rightarrow> rat \<Rightarrow> party option" where
  "first_with pv w = map_option fst (find (\<lambda>kv. snd kv = Some w) pv)"


text \<open>
  A polling table whose party columns are in the order Lab, Con, Reform, Green. The first
  data row has no date and one party value; the second has Lab and Con level on 30.
\<close>

definition tie_table :: table where
  "tie_table =
     \<lparr>table_text = ustr ''DatesPollsterSample sizeLabConReformGreenOpinium100025YouGov'',
      table_rows =
        [map text_cell [''Dates'', ''Pollster'', ''Sample size'', ''Lab'', ''Con'', ''Reform'', ''Green''],
         map text_cell [[], ''Opinium'', ''1000'', ''25'', [], [], []],
         map text_cell [''1-3 Feb 2026'', ''YouGov'', ''2,089'', ''30'', ''30'', ''19.3'', ''5'']]\<rparr>"

definition opinium_poll :: PollResult where
  "opinium_poll =
     \<lparr>pollster = ustr ''Opinium'', client = None, fieldwork_start = None,
      fieldwork_end = None, sample_size = Some 1000, con = None, lab = Some 25,
      lib_dem = None, reform = None, green = None, snp = None, other = None,
      lead_party = Some (ustr ''Labour''), lead_pct = None, source_url = Some (ustr ''u'')\<rparr>"

definition yougov_poll :: PollResult where
  "yougov_poll =
     \<lparr>pollster = ustr ''YouGov'', client = None, fieldwork_start = Some (2026, 2, 1),
      fieldwork_end = Some (2026, 2, 3), sample_size = Some 2089, con = Some 30,
      lab = Some 30, lib_dem = None, reform = Some (193 / 10), green = Some 5, snp = None,
      other = None, lead_party = Some (ustr ''Labour''), lead_pct = Some 0,
      source_url = Some (ustr ''u'')\<rparr>"

definition tie_grid :: "ustring list list" where
  "tie_grid =
     [map ustr [''Dates'', ''Pollster'', ''Sample size'', ''Lab'', ''Con'', ''Reform'', ''Green''],
      map ustr [[], ''Opinium'', ''1000'', ''25'', [], [], []],
      map ustr [''1-3 Feb 2026'', ''YouGov'', ''2,089'', ''30'', ''30'', ''19.3'', ''5'']]"

definition tie_col_map :: col_map where
  "tie_col_map =
     [(0, Fieldwork), (1, Pollster), (2, SampleSize), (3, Party Lab), (4, Party Con),
      (5, Party Reform), (6, Party Green)]"

definition empty_row7 :: "ustring option list" where
  "empty_row7 = [None, None, None, None, None, None, None]"


text \<open>The body of the loop of \<^verbatim>\<open>scrape_polls\<close> over the data rows, named for the statements.\<close>

definition collect_row ::
  "int \<Rightarrow> col_map \<Rightarrow> ustring \<Rightarrow> ustring list \<Rightarrow> PollResult list \<Rightarrow> py_error + PollResult list" where
  "collect_row today_year cm url row polls =
     ebind (row_to_poll today_year cm url row)
       (\<lambda>r. Inr (case r of None \<Rightarrow> polls | Some p \<Rightarrow> polls @ [p]))"



text \<open>The present values of the keys other than the leading one.\<close>

definition others :: "party_values \<Rightarrow> party option \<Rightarrow> rat set" where
  "others pv bp = {x. \<exists>k. (k, Some x) \<in> set pv \<and> Some k \<noteq> bp}"

text \<open>The dict of party values has each key once, and no negative value.\<close>

definition pv_ok :: "party_values \<Rightarrow> bool" where
  "pv_ok pv \<longleftrightarrow> distinct (map fst pv) \<and> list_all (\<lambda>kv. case snd kv of Some x \<Rightarrow> 0 \<le> x | None \<Rightarrow> True) pv"

text \<open>
  An end date the parsers can produce: not before the earliest date, and after it when
  the current year is later than year 1.
\<close>

definition date_ok :: "int \<Rightarrow> date \<Rightarrow> bool" where
  "date_ok today_year d \<longleftrightarrow> date_min \<le> d \<and> (today_year \<le> 1 \<or> date_min < d)"

(*DEFS-END*)

section \<open>Evaluation of concrete inputs\<close>

lemmas string_eval =
  ustr_def py_strip_def isspace_def isdigit_def isalpha_ascii_def py_lower_def lower_char_def
  replace1_def digits_val_def ebind_def

lemmas number_eval =
  py_int_def py_float_def float_literal_def decimal_value_def

lemmas percentage_eval =
  parse_percentage_def match_numeral_def

section \<open>The percentage parser\<close>

lemma replace1_empty: "replace1 c [] s = filter (\<lambda>x. x \<noteq> c) s"
  by (induction s) (auto simp: replace1_def)

lemma re_search_numeral: "re_search match_numeral s = spec_numeral s"
proof (induction s)
  case Nil
  show ?case by (simp add: match_numeral_def spec_numeral_def)
next
  case (Cons c cs)
  show ?case
  proof (cases "isdigit c")
    case True
    then show ?thesis by (simp add: match_numeral_def spec_numeral_def Let_def)
  next
    case False
    then have "match_numeral (c # cs) = None" by (simp add: match_numeral_def)
    with False Cons show ?thesis by (simp add: spec_numeral_def)
  qed
qed

lemma not_digit_46: "\<not> isdigit 46"
  by (simp add: isdigit_def)

lemma takeWhile_digits_app:
  "\<not> isdigit x \<Longrightarrow> takeWhile isdigit (takeWhile isdigit t @ x # r) = takeWhile isdigit t"
  by (induction t) auto

lemma dropWhile_digits_app:
  "\<not> isdigit x \<Longrightarrow> dropWhile isdigit (takeWhile isdigit t @ x # r) = x # r"
  by (induction t) auto

lemma spec_numeral_literal:
  assumes a: "spec_numeral s = Some m"
  shows "float_literal m"
proof -
  define t where "t = dropWhile (\<lambda>c. \<not> isdigit c) s"
  from a have tne: "t \<noteq> []"
    by (auto simp: spec_numeral_def t_def Let_def split: if_splits)
  then have "isdigit (hd t)"
    unfolding t_def using hd_dropWhile by metis
  then have ipne: "takeWhile isdigit t \<noteq> []"
    using tne by (cases t) auto
  show ?thesis
  proof (cases "dropWhile isdigit t \<noteq> [] \<and> hd (dropWhile isdigit t) = 46")
    case True
    with a tne
    have m: "m = takeWhile isdigit t @ 46 # takeWhile isdigit (tl (dropWhile isdigit t))"
      by (auto simp: spec_numeral_def t_def[symmetric] Let_def)
    show ?thesis
      unfolding m float_literal_def Let_def using ipne
      by (simp add: takeWhile_digits_app dropWhile_digits_app not_digit_46 list_all_iff)
        (meson set_takeWhileD)
  next
    case False
    with a tne have m: "m = takeWhile isdigit t"
      by (auto simp: spec_numeral_def t_def[symmetric] Let_def)
    show ?thesis
      unfolding m float_literal_def Let_def using ipne
      by (auto dest: set_takeWhileD)
  qed
qed

lemma parse_percentage_total: "parse_percentage text = Inr (spec_parse_percentage text)"
proof -
  have f: "replace1 8722 [] (replace1 8212 [] (replace1 8211 [] s)) =
        filter (\<lambda>c. c \<noteq> 8211 \<and> c \<noteq> 8212 \<and> c \<noteq> 8722) s" for s
    by (simp add: replace1_empty)
  show ?thesis
    unfolding parse_percentage_def spec_parse_percentage_def f Let_def re_search_numeral
    by (auto simp: ebind_def py_float_def dest: spec_numeral_literal split: option.splits)
qed



section \<open>Integer, date and sample-size parsing never raises\<close>

lemma digit_not_space: "isdigit c \<Longrightarrow> \<not> isspace c"
  by (auto simp: isdigit_def isspace_def)

lemma py_strip_id:
  assumes "s \<noteq> []" "\<not> isspace (hd s)" "\<not> isspace (last s)"
  shows "py_strip s = s"
proof -
  from assms have 1: "dropWhile isspace s = s" by (cases s) auto
  from assms have "rev s \<noteq> []" "\<not> isspace (hd (rev s))" by (simp_all add: hd_rev)
  then have "dropWhile isspace (rev s) = rev s" by (cases "rev s") auto
  with 1 show ?thesis by (simp add: py_strip_def)
qed

lemma int_literal_digits: "ds \<noteq> [] \<Longrightarrow> list_all isdigit ds \<Longrightarrow> int_literal ds"
  by (induction ds rule: int_literal.induct) (auto simp: isdigit_def)

lemma py_int_digits:
  assumes "ds \<noteq> []" "list_all isdigit ds"
  shows "py_int ds = Inr (int (digits_val ds))"
proof -
  from assms have h: "isdigit (hd ds)" and l: "isdigit (last ds)"
    by (auto simp: list_all_iff)
  then have s: "py_strip ds = ds"
    using assms(1) by (intro py_strip_id) (auto dest: digit_not_space)
  from h have ns: "hd ds \<noteq> 45" "hd ds \<noteq> 43" by (auto simp: isdigit_def)
  from assms(2) have f: "filter isdigit ds = ds" by (simp add: list_all_iff)
  show ?thesis
    using assms ns by (simp add: py_int_def s Let_def f int_literal_digits)
qed

lemma re_search_Some: "re_search f s = Some r \<Longrightarrow> \<exists>u. f u = Some r"
proof (induction s)
  case Nil
  then show ?case by (intro exI[of _ "[]"]) simp
next
  case (Cons c cs)
  show ?case
  proof (cases "f (c # cs)")
    case None
    with Cons show ?thesis by simp
  next
    case (Some a)
    with Cons.prems have "a = r" by simp
    with Some show ?thesis by (intro exI[of _ "c # cs"]) simp
  qed
qed

lemma take2_digits: "list_all isdigit (take 2 (takeWhile isdigit s))"
  by (auto simp: list_all_iff dest!: in_set_takeD set_takeWhileD)

lemma match_year_form:
  "match_year u = Some m \<Longrightarrow> \<exists>c d. m = [50, 48, c, d] \<and> isdigit c \<and> isdigit d"
  unfolding match_year_def
  by (cases u; simp; cases "tl u"; simp; cases "tl (tl u)"; simp; cases "tl (tl (tl u))";
      simp split: if_splits; blast)

lemma digits_val_20: "2000 \<le> digits_val [50, 48, c, d]"
  by (simp add: digits_val_def)

lemma match_year_digits:
  assumes "re_search match_year s = Some m"
  shows "m \<noteq> [] \<and> list_all isdigit m \<and> 2000 \<le> digits_val m"
proof -
  from re_search_Some [OF assms] obtain u where "match_year u = Some m" by blast
  then obtain c d where m: "m = [50, 48, c, d]" and cd: "isdigit c" "isdigit d"
    using match_year_form by blast
  have d: "isdigit 50" "isdigit 48" by (simp_all add: isdigit_def)
  have 1: "m \<noteq> []" unfolding m by simp
  have 2: "list_all isdigit m" unfolding m using d cd by simp
  have 3: "2000 \<le> digits_val m" unfolding m by (rule digits_val_20)
  from 1 2 3 show ?thesis by blast
qed

lemma match_day_month_digits:
  assumes "re_search match_day_month s = Some (g1, g2)"
  shows "g1 \<noteq> [] \<and> list_all isdigit g1"
proof -
  from re_search_Some [OF assms] obtain u where "match_day_month u = Some (g1, g2)" by blast
  then show ?thesis
    using take2_digits by (auto simp: match_day_month_def Let_def split: if_splits)
qed

lemma match_day_digits:
  assumes "re_search match_day s = Some m"
  shows "m \<noteq> [] \<and> list_all isdigit m"
proof -
  from re_search_Some [OF assms] obtain u where "match_day u = Some m" by blast
  then show ?thesis
    using take2_digits by (auto simp: match_day_def Let_def split: if_splits)
qed

lemma match_digits3_digits:
  assumes "re_search match_digits3 s = Some m"
  shows "m \<noteq> [] \<and> list_all isdigit m"
proof -
  from re_search_Some [OF assms] obtain u where "match_digits3 u = Some m" by blast
  then show ?thesis
    by (auto simp: match_digits3_def Let_def list_all_iff split: if_splits dest: set_takeWhileD)
qed

lemma parse_sample_size_total: "\<exists>r. parse_sample_size s = Inr r"
  by (auto simp: parse_sample_size_def Let_def ebind_def py_int_digits
      dest!: match_digits3_digits split: option.splits)

lemma year_lookup:
  "(case re_search match_year t of Some m \<Rightarrow> py_int m | None \<Rightarrow> Inr y) = Inr (spec_shared_year y t)"
  by (auto simp: spec_shared_year_def py_int_digits dest!: match_year_digits split: option.splits)

lemma py_date_cases: "py_date y m d = Inr (y, m, d) \<or> py_date y m d = Inl ValueError"
  by (simp add: py_date_def)

lemma try_date:
  "(case py_date y m d of Inr x \<Rightarrow> Inr (Some x) | Inl ValueError \<Rightarrow> Inr None | Inl err \<Rightarrow> Inl err)
     = Inr (case py_date y m d of Inr x \<Rightarrow> Some x | Inl err \<Rightarrow> None)"
  by (simp add: py_date_def)

lemma day_month_int:
  "re_search match_day_month t = Some (g1, g2) \<Longrightarrow> py_int g1 = Inr (int (digits_val g1))"
  using match_day_month_digits py_int_digits by blast

lemma parse_date_text_total: "\<exists>r. parse_date_text y t0 yr = Inr r"
proof -
  have y: "\<exists>v. (case yr of
              Some v \<Rightarrow> if v \<noteq> 0 then Inr v
                       else (case re_search match_year (py_strip t0) of
                               Some m \<Rightarrow> py_int m | None \<Rightarrow> Inr y)
            | None \<Rightarrow> (case re_search match_year (py_strip t0) of
                         Some m \<Rightarrow> py_int m | None \<Rightarrow> Inr y)) = Inr v"
    by (cases yr) (simp_all add: year_lookup)
  then obtain v where v: "(case yr of
              Some v \<Rightarrow> if v \<noteq> 0 then Inr v
                       else (case re_search match_year (py_strip t0) of
                               Some m \<Rightarrow> py_int m | None \<Rightarrow> Inr y)
            | None \<Rightarrow> (case re_search match_year (py_strip t0) of
                         Some m \<Rightarrow> py_int m | None \<Rightarrow> Inr y)) = Inr v" by blast
  show ?thesis
  proof (cases "re_search match_day_month (py_strip t0)")
    case None
    then show ?thesis
      unfolding parse_date_text_def Let_def v by (simp add: ebind_def)
  next
    case (Some g)
    obtain g1 g2 where g: "g = (g1, g2)" by (cases g)
    from Some g have i: "py_int g1 = Inr (int (digits_val g1))" by (simp add: day_month_int)
    show ?thesis
      unfolding parse_date_text_def Let_def v Some g
      by (simp add: ebind_def i try_date split: option.splits)
  qed
qed


lemma rederive:
  "(case ebind (Inr v) (py_date y m) of
      Inr d \<Rightarrow> Inr (Some d, e) | Inl ValueError \<Rightarrow> Inr (s, e) | Inl err \<Rightarrow> Inl err)
   = Inr (case py_date y m v of Inr d \<Rightarrow> Some d | Inl err \<Rightarrow> s, e)"
  by (simp add: py_date_def ebind_def)

lemma day_int: "re_search match_day t = Some m \<Longrightarrow> py_int m = Inr (int (digits_val m))"
  using match_day_digits py_int_digits by blast

lemma two_parts:
  assumes e: "parse_date_text y (py_strip p1) (Some yr) = Inr e"
      and s: "parse_date_text y (py_strip p0) (Some yr) = Inr s"
  shows "ebind (parse_date_text y (py_strip p1) (Some yr))
           (\<lambda>end_date. ebind (parse_date_text y (py_strip p0) (Some yr))
              (\<lambda>start_date.
                 case (start_date, end_date) of
                   (None, Some e) \<Rightarrow>
                     (case re_search match_day (py_strip p0) of
                        Some m \<Rightarrow>
                          (case ebind (py_int m) (py_date yr (date_month e)) of
                             Inr d \<Rightarrow> Inr (Some d, end_date)
                           | Inl ValueError \<Rightarrow> Inr (start_date, end_date)
                           | Inl err \<Rightarrow> Inl err)
                      | None \<Rightarrow> Inr (start_date, end_date))
                 | _ \<Rightarrow> Inr (start_date, end_date)))
         = Inr (case (s, e) of
                  (None, Some ed) \<Rightarrow>
                     (case re_search match_day (py_strip p0) of
                        Some m \<Rightarrow> (case py_date yr (date_month ed) (int (digits_val m)) of
                                     Inr d \<Rightarrow> Some d | Inl err \<Rightarrow> None)
                      | None \<Rightarrow> None)
                | _ \<Rightarrow> s, e)"
proof (cases s)
  case (Some a)
  then show ?thesis unfolding e s by (simp add: ebind_def)
next
  case None
  show ?thesis
  proof (cases e)
    case N2: None
    with None show ?thesis unfolding e s by (simp add: ebind_def)
  next
    case (Some ed)
    show ?thesis
    proof (cases "re_search match_day (py_strip p0)")
      case N3: None
      with None Some show ?thesis unfolding e s by (simp add: ebind_def)
    next
      case S3: (Some m)
      have i: "py_int m = Inr (int (digits_val m))" using S3 by (rule day_int)
      show ?thesis
        by (simp add: e s None Some S3 i ebind_def py_date_def)
    qed
  qed
qed

section \<open>The date-range parser\<close>

lemmas date_eval =
  parse_fieldwork_dates_def parse_date_text_def match_year_def match_day_month_def
  match_day_def split_dash_def is_dash_def py_date_def days_in_month_def is_leap_def
  months_def date_month_def



lemma fieldwork_unfold:
  assumes "py_strip txt \<noteq> []"
  shows "parse_fieldwork_dates y txt =
     (case split_dash (py_strip txt) of
        [p0, p1] \<Rightarrow>
          ebind (parse_date_text y (py_strip p1) (Some (spec_shared_year y (py_strip txt))))
            (\<lambda>end_date.
               ebind (parse_date_text y (py_strip p0) (Some (spec_shared_year y (py_strip txt))))
                 (\<lambda>start_date.
                    case (start_date, end_date) of
                      (None, Some e) \<Rightarrow>
                        (case re_search match_day (py_strip p0) of
                           Some m \<Rightarrow>
                             (case ebind (py_int m)
                                     (py_date (spec_shared_year y (py_strip txt)) (date_month e)) of
                                Inr d \<Rightarrow> Inr (Some d, end_date)
                              | Inl ValueError \<Rightarrow> Inr (start_date, end_date)
                              | Inl err \<Rightarrow> Inl err)
                         | None \<Rightarrow> Inr (start_date, end_date))
                    | _ \<Rightarrow> Inr (start_date, end_date)))
      | _ \<Rightarrow> ebind (parse_date_text y (py_strip txt) (Some (spec_shared_year y (py_strip txt))))
               (\<lambda>d. Inr (d, d)))"
  using assms unfolding parse_fieldwork_dates_def Let_def year_lookup
  by (simp add: ebind_def)









section \<open>The grid builder\<close>





















declare advance.simps [simp del]





lemma upt_small: "[0..<2] = [0, 1]" "[0..<Suc 0] = [0]" "[0..<3] = [0, 1, 2]"
  by (simp_all add: upt_rec)

lemma replicate_small: "replicate 3 x = [x, x, x]" "replicate 2 x = [x, x]"
  by (simp_all add: numeral_3_eq_3 numeral_2_eq_2)

lemma list_update_numeral: "(x # xs)[numeral k := v] = x # xs[pred_numeral k := v]"
  by (simp add: numeral_eq_Suc)

lemmas grid_eval =
  expand_rowspans_def first_pass_def cols_in_row_def attr_int_def fill_rect_def set_cell_def
  py_get_def py_set_def py_index_def advance.simps text_cell_def span_cell_def
  upt_small replicate_small list_update_numeral Let_def





section \<open>The row mapper never raises\<close>

lemma split_dash_cases: "split_dash s = [s] \<or> (\<exists>a b. split_dash s = [a, b])"
  by (simp add: split_dash_def Let_def)

lemma parse_fieldwork_dates_total: "\<exists>r. parse_fieldwork_dates y txt = Inr r"
proof (cases "py_strip txt = []")
  case True
  then show ?thesis by (simp add: parse_fieldwork_dates_def)
next
  case False
  let ?Y = "spec_shared_year y (py_strip txt)"
  from split_dash_cases[of "py_strip txt"] show ?thesis
  proof
    assume s: "split_dash (py_strip txt) = [py_strip txt]"
    obtain d where "parse_date_text y (py_strip txt) (Some ?Y) = Inr d"
      using parse_date_text_total by blast
    then show ?thesis unfolding fieldwork_unfold[OF False] s by (simp add: ebind_def)
  next
    assume "\<exists>a b. split_dash (py_strip txt) = [a, b]"
    then obtain a b where s: "split_dash (py_strip txt) = [a, b]" by blast
    obtain e where e: "parse_date_text y (py_strip b) (Some ?Y) = Inr e"
      using parse_date_text_total by blast
    obtain st where st: "parse_date_text y (py_strip a) (Some ?Y) = Inr st"
      using parse_date_text_total by blast
    show ?thesis unfolding fieldwork_unfold[OF False] s using two_parts[OF e st] by simp
  qed
qed

lemma efold_total:
  assumes "\<And>x s. \<exists>s'. f x s = Inr s'"
  shows "\<exists>s'. efold f xs s = Inr s'"
proof (induction xs arbitrary: s)
  case Nil
  show ?case by simp
next
  case (Cons x xs)
  from assms obtain s1 where "f x s = Inr s1" by blast
  with Cons[of s1] show ?case by simp
qed

lemma efold_invariant:
  assumes "\<And>x s s'. P s \<Longrightarrow> f x s = Inr s' \<Longrightarrow> P s'"
      and "P s" and "efold f xs s = Inr s'"
  shows "P s'"
  using assms(2,3)
proof (induction xs arbitrary: s)
  case Nil
  then show ?case by simp
next
  case (Cons x xs)
  from Cons.prems(2) obtain s1 where 1: "f x s = Inr s1" and 2: "efold f xs s1 = Inr s'"
    by (auto split: sum.splits)
  from assms(1)[OF Cons.prems(1) 1] have "P s1" .
  from Cons.IH[OF this 2] show ?case .
qed

lemma apply_field_total: "\<exists>st'. apply_field y row item st = Inr st'"
proof -
  obtain col_idx field where item: "item = (col_idx, field)" by (cases item)
  obtain data pv where st: "st = (data, pv)" by (cases st)
  show ?thesis
  proof (cases "col_idx \<ge> length row")
    case True
    then show ?thesis by (simp add: apply_field_def item st)
  next
    case False
    obtain a b where fw: "parse_fieldwork_dates y (row ! col_idx) = Inr (a, b)"
      using parse_fieldwork_dates_total by (metis surj_pair)
    obtain n where ss: "parse_sample_size (row ! col_idx) = Inr n"
      using parse_sample_size_total by blast
    from False show ?thesis
      by (cases field)
         (simp_all add: apply_field_def item st fw ss parse_percentage_total ebind_def Let_def)
  qed
qed

lemma row_to_poll_total: "\<exists>r. row_to_poll y cm url row = Inr r"
proof -
  obtain data pv where "efold (apply_field y row) cm (empty_data, []) = Inr (data, pv)"
    using efold_total[of "apply_field y row", OF apply_field_total] by (metis surj_pair)
  then show ?thesis
    by (simp add: row_to_poll_def Let_def ebind_def split: prod.splits)
qed

section \<open>The example tables, evaluated\<close>

lemma replicate_7: "replicate 7 x = [x, x, x, x, x, x, x]"
  by (simp add: numeral_eq_Suc)

lemma tie_target: "is_target tie_table"
  by (simp add: is_target_def tie_table_def starts_with_def string_eval)

lemma tie_first_pass: "first_pass (table_rows tie_table) = Inr 7"
  by (simp add: tie_table_def grid_eval string_eval number_eval)

lemma tie_row0:
  "place_cells 7 0 (map text_cell [''Dates'', ''Pollster'', ''Sample size'', ''Lab'', ''Con'', ''Reform'', ''Green'']) 0
     [empty_row7, empty_row7, empty_row7] = Inr [map Some (tie_grid ! 0), empty_row7, empty_row7]"
  by (simp add: empty_row7_def tie_grid_def grid_eval string_eval number_eval)

lemma tie_row1:
  "place_cells 7 1 (map text_cell [[], ''Opinium'', ''1000'', ''25'', [], [], []]) 0
     [map Some (tie_grid ! 0), empty_row7, empty_row7] = Inr [map Some (tie_grid ! 0), map Some (tie_grid ! 1), empty_row7]"
  by (simp add: empty_row7_def tie_grid_def grid_eval string_eval number_eval)

lemma tie_row2:
  "place_cells 7 2 (map text_cell [''1-3 Feb 2026'', ''YouGov'', ''2,089'', ''30'', ''30'', ''19.3'', ''5'']) 0
     [map Some (tie_grid ! 0), map Some (tie_grid ! 1), empty_row7] = Inr (map (map Some) tie_grid)"
  by (simp add: empty_row7_def tie_grid_def grid_eval string_eval number_eval)

lemma tie_expand: "expand_rowspans tie_table = Inr tie_grid"
proof -
  have r: "replicate (length (table_rows tie_table)) (replicate (nat 7) None) = [empty_row7, empty_row7, empty_row7]"
    by (simp add: tie_table_def empty_row7_def replicate_7 replicate_small)
  have s: "second_pass 7 0 (table_rows tie_table) [empty_row7, empty_row7, empty_row7] = Inr (map (map Some) tie_grid)"
    using tie_row0 tie_row1 tie_row2 by (simp add: tie_table_def)
  have m: "map (map (\<lambda>c. case c of None \<Rightarrow> [] | Some s \<Rightarrow> s)) (map (map Some) tie_grid) = tie_grid"
    by (simp add: tie_grid_def)
  have ne: "table_rows tie_table \<noteq> []" by (simp add: tie_table_def)
  show ?thesis
    unfolding expand_rowspans_def Let_def tie_first_pass
    using ne r s m by (simp add: ebind_def)
qed

lemma upt_small2: "[0..<min 4 3] = [0, 1, 2]" "[0..<7] = [0, 1, 2, 3, 4, 5, 6]"
  by (simp_all add: upt_rec)

lemma tie_identify: "identify_columns (tie_grid ! 0) = tie_col_map"
  by (simp add: tie_grid_def tie_col_map_def identify_columns_def classify_header_def
      PARTY_COLUMN_MAP_def starts_with_def List.map_filter_def enumerate_eq_zip upt_small2
      string_eval)

lemma tie_header: "find_header tie_grid = Some (0, tie_col_map)"
proof -
  have ok: "header_ok (tie_grid ! 0)"
    by (simp add: header_ok_def tie_identify party_cols_def major_party_def tie_col_map_def)
  have len: "length tie_grid = 3" by (simp add: tie_grid_def)
  show ?thesis
    by (simp add: find_header_def len upt_small ok tie_identify)
qed


lemmas row_eval =
  row_to_poll_def apply_field_def empty_data_def best_step_def second_step_def dict_get_def
  py_round1_def round_half_even_def parse_sample_size_def match_digits3_def

lemma tie_poll1:
  "row_to_poll 2026 tie_col_map (ustr ''u'') (tie_grid ! Suc 0) = Inr (Some opinium_poll)"
  by (simp add: tie_grid_def tie_col_map_def opinium_poll_def row_eval date_eval
      percentage_eval string_eval number_eval)

lemma tie_poll2: "row_to_poll 2026 tie_col_map (ustr ''u'') (tie_grid ! 2) = Inr (Some yougov_poll)"
  by (simp add: tie_grid_def tie_col_map_def yougov_poll_def row_eval date_eval
      percentage_eval string_eval number_eval)

lemma tie_sort: "sort_polls [opinium_poll, yougov_poll] = [yougov_poll, opinium_poll]"
  by (simp add: sort_polls_def sort_key_of_def date_min_def opinium_poll_def yougov_poll_def)


lemma tie_scrape: "scrape_polls 2026 [tie_table] (ustr ''u'') = Inr [yougov_poll, opinium_poll]"
proof -
  have d: "drop (Suc 0) tie_grid = [tie_grid ! Suc 0, tie_grid ! 2]" "length tie_grid = 3"
    by (simp_all add: tie_grid_def)
  show ?thesis
    unfolding scrape_polls_def
    by (simp add: tie_target tie_expand tie_header d tie_poll1 tie_poll2 tie_sort ebind_def)
qed


section \<open>The pipeline and malformed span attributes\<close>






section \<open>Table locator and header detector\<close>





lemma find_upt_None: "find P [0..<k] = None \<longleftrightarrow> (\<forall>i<k. \<not> P i)"
  by (auto simp: find_None_iff)

lemma find_upt_Some:
  "find P [0..<k] = Some i \<longleftrightarrow> i < k \<and> P i \<and> (\<forall>j<i. \<not> P j)"
  by (auto simp: find_Some_iff)


lemma find_header_Some:
  "find_header grid = Some (h, cm) \<longleftrightarrow>
     h < min 4 (length grid) \<and> header_ok (grid ! h) \<and> (\<forall>j<h. \<not> header_ok (grid ! j)) \<and>
     cm = identify_columns (grid ! h)"
proof (cases "find (\<lambda>i. header_ok (grid ! i)) [0..<min 4 (length grid)]")
  case None
  then have b: "\<forall>i<min 4 (length grid). \<not> header_ok (grid ! i)" by (simp only: find_upt_None)
  from None have a: "find_header grid = None" by (simp add: find_header_def)
  from a b show ?thesis by auto
next
  case (Some i)
  then have i: "i < min 4 (length grid) \<and> header_ok (grid ! i) \<and> (\<forall>j<i. \<not> header_ok (grid ! j))"
    by (simp add: find_upt_Some)
  have "find_header grid = Some (i, identify_columns (grid ! i))"
    using Some by (simp add: find_header_def)
  moreover have "h = i" if "h < min 4 (length grid)" "header_ok (grid ! h)"
      "\<forall>j<h. \<not> header_ok (grid ! j)"
    using that i by (meson linorder_neqE_nat)
  ultimately show ?thesis using i by auto
qed

lemma scrape_unfold:
  assumes "find is_target tables = Some t" "expand_rowspans t = Inr grid" "3 \<le> length grid"
  shows "scrape_polls y tables url =
     (case find_header grid of
        None \<Rightarrow> Inr []
      | Some (h, cm) \<Rightarrow>
          ebind (efold (collect_row y cm url) (drop (h + 1) grid) [])
            (\<lambda>polls. Inr (sort_polls polls)))"
proof -
  from assms(1) have ne: "tables \<noteq> []" by auto
  have c: "collect_row y cm url = (\<lambda>row polls. ebind (row_to_poll y cm url row)
              (\<lambda>r. Inr (case r of None \<Rightarrow> polls | Some p \<Rightarrow> polls @ [p])))" for cm
    by (intro ext) (simp add: collect_row_def)
  from ne assms show ?thesis
    by (simp add: scrape_polls_def c ebind_def split: option.splits)
qed


lemma small_grid_empty:
  assumes "find is_target tables = Some t" "expand_rowspans t = Inr grid" "length grid < 3"
  shows "scrape_polls y tables url = Inr []"
proof -
  from assms(1) have "tables \<noteq> []" by auto
  with assms show ?thesis by (simp add: scrape_polls_def ebind_def)
qed

lemma scan_range: "3 \<le> n \<Longrightarrow> i \<le> min 3 (n - 1) \<longleftrightarrow> i < min 4 (n::nat)"
  by auto





section \<open>The dict of party values\<close>

lemma dict_set_keys:
  "map fst (dict_set pv k v) = (if k \<in> fst ` set pv then map fst pv else map fst pv @ [k])"
proof (induction pv)
  case Nil
  show ?case by simp
next
  case (Cons kv pv)
  obtain k' v' where kv: "kv = (k', v')" by (cases kv)
  show ?case
  proof (cases "k' = k")
    case True
    then show ?thesis by (simp add: kv)
  next
    case False
    then show ?thesis using Cons by (auto simp: kv)
  qed
qed

lemma dict_set_distinct: "distinct (map fst pv) \<Longrightarrow> distinct (map fst (dict_set pv k v))"
  by (simp add: dict_set_keys)

lemma dict_set_set: "set (dict_set pv k v) \<subseteq> insert (k, v) (set pv)"
  by (induction pv) (auto split: if_splits)

lemma present_finite: "finite (present pv)"
proof -
  have "present pv \<subseteq> (\<lambda>kv. case snd kv of Some x \<Rightarrow> x | None \<Rightarrow> 0) ` set pv"
    by (force simp: present_def image_iff)
  then show ?thesis by (rule finite_subset) simp
qed

lemma present_Cons:
  "present ((k, v) # pv) = (case v of Some x \<Rightarrow> insert x (present pv) | None \<Rightarrow> present pv)"
  by (auto simp: present_def split: option.splits)

lemma first_with_Cons:
  "first_with ((k, v) # pv) w = (if v = Some w then Some k else first_with pv w)"
  by (simp add: first_with_def)

lemma best_fold:
  "fold best_step pv (bp, bv) =
     (if \<exists>x\<in>present pv. bv < x then first_with pv (Max (insert bv (present pv))) else bp,
      Max (insert bv (present pv)))"
proof (induction pv arbitrary: bp bv)
  case Nil
  show ?case by (simp add: present_def)
next
  case (Cons kv pv)
  obtain k v where kv: "kv = (k, v)" by (cases kv)
  note fin = present_finite[of pv]
  show ?case
  proof (cases v)
    case None
    have step: "best_step (k, None) (bp, bv) = (bp, bv)"
      by (simp add: best_step_def)
    from None show ?thesis
      by (simp add: kv step Cons.IH present_Cons first_with_Cons)
  next
    case (Some x)
    show ?thesis
    proof (cases "bv < x")
      case True
      have step: "best_step (k, Some x) (bp, bv) = (Some k, x)"
        using True by (simp add: best_step_def)
      have "x \<le> Max (insert x (present pv))" using fin by simp
      with True have "bv \<le> Max (insert x (present pv))" by simp
      then have mx: "Max (insert bv (insert x (present pv))) = Max (insert x (present pv))"
        using fin by (simp add: max.absorb2)
      have ex: "\<exists>y\<in>insert x (present pv). bv < y" using True by blast
      show ?thesis
      proof (cases "\<exists>y\<in>present pv. x < y")
        case T2: True
        then have "x < Max (insert x (present pv))"
          using fin by (simp add: Max_gr_iff)
        then have "Some x \<noteq> Some (Max (insert x (present pv)))" by simp
        with T2 ex show ?thesis
          by (simp add: kv Some step Cons.IH present_Cons first_with_Cons mx)
      next
        case F2: False
        then have "Max (insert x (present pv)) = x"
          using fin by (intro Max_eqI) auto
        with F2 ex show ?thesis
          by (simp add: kv Some step Cons.IH present_Cons first_with_Cons mx)
      qed
    next
      case False
      have step: "best_step (k, Some x) (bp, bv) = (bp, bv)"
        using False by (simp add: best_step_def)
      from False have xle: "x \<le> bv" by simp
      have mx: "Max (insert bv (insert x (present pv))) = Max (insert bv (present pv))"
      proof -
        have "insert bv (insert x (present pv)) = insert x (insert bv (present pv))" by blast
        moreover have "bv \<le> Max (insert bv (present pv))" using fin by simp
        with xle have "x \<le> Max (insert bv (present pv))" by simp
        then have "Max (insert x (insert bv (present pv))) = Max (insert bv (present pv))"
          using fin by (simp add: max.absorb2)
        ultimately show ?thesis by simp
      qed
      have ex: "(\<exists>y\<in>insert x (present pv). bv < y) \<longleftrightarrow> (\<exists>y\<in>present pv. bv < y)"
        using False by auto
      have nk: "(\<exists>y\<in>present pv. bv < y) \<Longrightarrow> Some x \<noteq> Some (Max (insert bv (present pv)))"
      proof -
        assume "\<exists>y\<in>present pv. bv < y"
        then have "bv < Max (insert bv (present pv))" using fin by (simp add: Max_gr_iff)
        with xle show ?thesis by auto
      qed
      show ?thesis
      proof (cases "\<exists>y\<in>present pv. bv < y")
        case T3: True
        with nk have "Some x \<noteq> Some (Max (insert bv (present pv)))" by blast
        with T3 False show ?thesis
          by (simp add: kv Some step Cons.IH present_Cons first_with_Cons mx)
      next
        case F3: False
        with False show ?thesis
          by (simp add: kv Some step Cons.IH present_Cons first_with_Cons mx)
      qed
    qed
  qed
qed

lemma others_finite: "finite (others pv bp)"
proof -
  have "others pv bp \<subseteq> present pv" by (auto simp: others_def present_def)
  then show ?thesis using present_finite by (rule finite_subset)
qed

lemma others_Cons:
  "others ((k, v) # pv) bp =
     (case v of Some x \<Rightarrow> if Some k \<noteq> bp then insert x (others pv bp) else others pv bp
      | None \<Rightarrow> others pv bp)"
  by (auto simp: others_def split: option.splits)

lemma second_fold: "fold (second_step bp) pv s = Max (insert s (others pv bp))"
proof (induction pv arbitrary: s)
  case Nil
  show ?case by (simp add: others_def)
next
  case (Cons kv pv)
  obtain k v where kv: "kv = (k, v)" by (cases kv)
  note fin = others_finite[of pv bp]
  show ?case
  proof (cases v)
    case None
    have step: "second_step bp (k, None) s = s" by (simp add: second_step_def)
    from None show ?thesis by (simp add: kv step Cons.IH others_Cons)
  next
    case (Some x)
    show ?thesis
    proof (cases "Some k \<noteq> bp \<and> s < x")
      case True
      then have step: "second_step bp (k, Some x) s = x" by (simp add: second_step_def)
      have "x \<le> Max (insert x (others pv bp))" using fin by simp
      with True have "s \<le> Max (insert x (others pv bp))" by simp
      then have "Max (insert s (insert x (others pv bp))) = Max (insert x (others pv bp))"
        using fin by (simp add: max.absorb2)
      with True show ?thesis by (simp add: kv Some step Cons.IH others_Cons)
    next
      case False
      then have step: "second_step bp (k, Some x) s = s" by (auto simp: second_step_def)
      show ?thesis
      proof (cases "Some k \<noteq> bp")
        case T2: True
        with False have xle: "x \<le> s" by simp
        have "s \<le> Max (insert s (others pv bp))" using fin by simp
        with xle have "x \<le> Max (insert s (others pv bp))" by simp
        then have "Max (insert x (insert s (others pv bp))) = Max (insert s (others pv bp))"
          using fin by (simp add: max.absorb2)
        moreover have "insert s (insert x (others pv bp)) = insert x (insert s (others pv bp))"
          by blast
        ultimately show ?thesis using T2 by (simp add: kv Some step Cons.IH others_Cons)
      next
        case F2: False
        then show ?thesis by (simp add: kv Some step Cons.IH others_Cons)
      qed
    qed
  qed
qed

section \<open>What the row mapper emits\<close>

lemma digits_val_nonneg: "0 \<le> decimal_value s"
  by (simp add: decimal_value_def Let_def)

lemma percentage_nonneg:
  assumes "parse_percentage txt = Inr (Some x)"
  shows "0 \<le> x"
proof -
  from assms have "spec_parse_percentage txt = Some x" by (simp add: parse_percentage_total)
  then obtain m where "x = decimal_value m"
    by (auto simp: spec_parse_percentage_def Let_def split: if_splits)
  then show ?thesis by (simp add: digits_val_nonneg)
qed

lemma pv_ok_present: "pv_ok pv \<Longrightarrow> x \<in> present pv \<Longrightarrow> 0 \<le> x"
  by (force simp: pv_ok_def present_def list_all_iff)

lemma pv_ok_dict_set:
  assumes "pv_ok pv" "case v of Some x \<Rightarrow> 0 \<le> x | None \<Rightarrow> True"
  shows "pv_ok (dict_set pv k v)"
proof -
  have "kv \<in> set (dict_set pv k v) \<Longrightarrow> (case snd kv of Some x \<Rightarrow> 0 \<le> x | None \<Rightarrow> True)" for kv
    using dict_set_set[of pv k v] assms by (auto simp: pv_ok_def list_all_iff)
  with assms(1) show ?thesis by (simp add: pv_ok_def list_all_iff dict_set_distinct)
qed

lemma apply_field_pv:
  assumes "apply_field y row item (data, pv) = Inr (data', pv')"
  shows "pv' = pv \<or>
         (\<exists>p v. snd item = Party p \<and> fst item < length row \<and>
                parse_percentage (row ! fst item) = Inr v \<and> pv' = dict_set pv p v)"
proof -
  obtain col_idx field where item: "item = (col_idx, field)" by (cases item)
  show ?thesis
  proof (cases "col_idx \<ge> length row")
    case True
    with assms show ?thesis by (simp add: apply_field_def item)
  next
    case False
    with assms show ?thesis
      by (cases field)
         (auto simp: apply_field_def item ebind_def Let_def parse_percentage_total
               split: sum.splits prod.splits)
  qed
qed

lemma apply_field_ok:
  assumes "apply_field y row item (data, pv) = Inr (data', pv')" "pv_ok pv"
  shows "pv_ok pv'"
proof -
  from apply_field_pv[OF assms(1)] show ?thesis
  proof
    assume "pv' = pv" with assms(2) show ?thesis by simp
  next
    assume "\<exists>p v. snd item = Party p \<and> fst item < length row \<and>
                parse_percentage (row ! fst item) = Inr v \<and> pv' = dict_set pv p v"
    then obtain p v where v: "parse_percentage (row ! fst item) = Inr v"
      and pv': "pv' = dict_set pv p v" by blast
    have "case v of Some x \<Rightarrow> 0 \<le> x | None \<Rightarrow> True"
      using v by (cases v) (auto dest: percentage_nonneg)
    with assms(2) show ?thesis unfolding pv' by (rule pv_ok_dict_set)
  qed
qed

lemma fields_pv_ok:
  assumes "efold (apply_field y row) cm (data, pv) = Inr (data', pv')" "pv_ok pv"
  shows "pv_ok pv'"
proof -
  have "pv_ok (snd (data', pv'))"
  proof (rule efold_invariant[where P = "\<lambda>st. pv_ok (snd st)" and f = "apply_field y row"])
    fix x s s' assume "pv_ok (snd s)" "apply_field y row x s = Inr s'"
    then show "pv_ok (snd s')" using apply_field_ok[of y row x "fst s" "snd s" "fst s'" "snd s'"]
      by simp
  next
    show "pv_ok (snd (data, pv))" using assms(2) by simp
  next
    show "efold (apply_field y row) cm (data, pv) = Inr (data', pv')" by (rule assms(1))
  qed
  then show ?thesis by simp
qed

lemma row_to_poll_Some:
  assumes "row_to_poll y cm url row = Inr (Some p)"
  shows "\<exists>data pv bp bv.
           efold (apply_field y row) cm (empty_data, []) = Inr (data, pv) \<and>
           pollster p \<noteq> [] \<and> \<not> list_all (\<lambda>(k, v). v = None) pv \<and>
           fold best_step pv (None, - 1) = (bp, bv) \<and>
           (\<forall>q. party_value p q = dict_get pv q) \<and>
           lead_party p = map_option party_display bp \<and>
           lead_pct p = (if 0 \<le> fold (second_step bp) pv (- 1)
                         then Some (py_round1 (bv - fold (second_step bp) pv (- 1))) else None) \<and>
           fieldwork_end p = d_fieldwork_end data"
proof -
  obtain st where st: "efold (apply_field y row) cm (empty_data, []) = Inr st"
    using efold_total[of "apply_field y row", OF apply_field_total] by blast
  obtain data pv where dp: "st = (data, pv)" by (cases st)
  obtain bp bv where b: "fold best_step pv (None, - 1) = (bp, bv)" by (cases "fold best_step pv (None, - 1)")
  let ?name = "py_strip (case d_pollster data of Some s \<Rightarrow> s | None \<Rightarrow> [])"
  from assms have ne: "\<not> length (filter (\<lambda>c. py_strip c \<noteq> []) row) < 3"
    by (auto simp: row_to_poll_def Let_def)
  from assms ne have ok: "?name \<noteq> []" "\<not> list_all (\<lambda>(k, v). v = None) pv"
    by (auto simp: row_to_poll_def Let_def st dp ebind_def split: if_splits)
  from assms ne ok have p: "p =
      \<lparr>pollster = ?name, client = d_client data, fieldwork_start = d_fieldwork_start data,
       fieldwork_end = d_fieldwork_end data, sample_size = d_sample_size data,
       con = dict_get pv Con, lab = dict_get pv Lab, lib_dem = dict_get pv LibDem,
       reform = dict_get pv Reform, green = dict_get pv Green, snp = dict_get pv SNP,
       other = dict_get pv Other, lead_party = map_option party_display bp,
       lead_pct = (if 0 \<le> fold (second_step bp) pv (- 1)
                   then Some (py_round1 (bv - fold (second_step bp) pv (- 1))) else None),
       source_url = Some url\<rparr>"
    by (simp add: row_to_poll_def Let_def st dp ebind_def b)
  have pvq: "\<forall>q. party_value p q = dict_get pv q"
  proof
    fix q show "party_value p q = dict_get pv q" by (cases q) (simp_all add: p)
  qed
  from st dp ok b pvq show ?thesis by (auto simp: p)
qed

lemma dict_get_iff:
  assumes "distinct (map fst pv)"
  shows "dict_get pv q = Some x \<longleftrightarrow> (q, Some x) \<in> set pv"
proof -
  have "dict_get pv q = Some x \<longleftrightarrow> map_of pv q = Some (Some x)"
    by (simp add: dict_get_def split: option.splits)
  also have "\<dots> \<longleftrightarrow> (q, Some x) \<in> set pv"
    using assms by (rule map_of_eq_Some_iff)
  finally show ?thesis .
qed

lemma first_with_Some:
  "first_with pv w = Some b \<Longrightarrow> (b, Some w) \<in> set pv"
proof (induction pv)
  case Nil
  then show ?case by (simp add: first_with_def)
next
  case (Cons kv pv)
  obtain k v where kv: "kv = (k, v)" by (cases kv)
  from Cons show ?case by (auto simp: kv first_with_Cons split: if_splits)
qed

lemma first_with_exists:
  "w \<in> present pv \<Longrightarrow> \<exists>b. first_with pv w = Some b"
proof (induction pv)
  case Nil
  then show ?case by (simp add: present_def)
next
  case (Cons kv pv)
  obtain k v where kv: "kv = (k, v)" by (cases kv)
  from Cons show ?case
    by (cases v) (auto simp: kv first_with_Cons present_Cons)
qed

lemma row_lead:
  assumes "row_to_poll y cm url row = Inr (Some p)"
  shows "\<exists>data pv b.
           efold (apply_field y row) cm (empty_data, []) = Inr (data, pv) \<and> pv_ok pv \<and>
           (\<forall>q. party_value p q = dict_get pv q) \<and> present pv \<noteq> {} \<and>
           first_with pv (Max (present pv)) = Some b \<and>
           lead_party p = Some (party_display b) \<and>
           lead_pct p = (if others pv (Some b) = {} then None
                         else Some (py_round1 (Max (present pv) - Max (others pv (Some b))))) \<and>
           pollster p \<noteq> [] \<and> fieldwork_end p = d_fieldwork_end data"
proof -
  from row_to_poll_Some[OF assms] obtain data pv bp bv where
    e: "efold (apply_field y row) cm (empty_data, []) = Inr (data, pv)"
    and nm: "pollster p \<noteq> []" and some: "\<not> list_all (\<lambda>(k, v). v = None) pv"
    and b: "fold best_step pv (None, - 1) = (bp, bv)"
    and pvq: "\<forall>q. party_value p q = dict_get pv q"
    and lp: "lead_party p = map_option party_display bp"
    and lc: "lead_pct p = (if 0 \<le> fold (second_step bp) pv (- 1)
                         then Some (py_round1 (bv - fold (second_step bp) pv (- 1))) else None)"
    and fe: "fieldwork_end p = d_fieldwork_end data" by blast
  have "pv_ok []" by (simp add: pv_ok_def)
  with e have ok: "pv_ok pv" by (rule fields_pv_ok)
  from some obtain k x where "(k, Some x) \<in> set pv" by (auto simp: list_all_iff)
  then have ne: "present pv \<noteq> {}" by (auto simp: present_def)
  note fin = present_finite[of pv]
  have nonneg: "\<And>x. x \<in> present pv \<Longrightarrow> 0 \<le> x" using ok by (rule pv_ok_present)
  from ne fin have mxin: "Max (present pv) \<in> present pv" by (rule_tac Max_in)
  then have mx0: "0 \<le> Max (present pv)" by (rule nonneg)
  then have mxi: "Max (insert (- 1) (present pv)) = Max (present pv)"
    using fin ne by (simp add: max.absorb2)
  from mxin mx0 have ex: "\<exists>x\<in>present pv. - 1 < x" by force
  from b ex have bp: "bp = first_with pv (Max (present pv))" and bv: "bv = Max (present pv)"
    by (auto simp: best_fold mxi)
  from first_with_exists[OF mxin] obtain c where c: "first_with pv (Max (present pv)) = Some c"
    by blast
  have sv: "fold (second_step bp) pv (- 1) = Max (insert (- 1) (others pv (Some c)))"
    by (simp add: second_fold bp c)
  have sub: "others pv (Some c) \<subseteq> present pv" by (auto simp: others_def present_def)
  note ofin = others_finite[of pv "Some c"]
  have lead: "lead_pct p = (if others pv (Some c) = {} then None
                 else Some (py_round1 (Max (present pv) - Max (others pv (Some c)))))"
  proof (cases "others pv (Some c) = {}")
    case True
    then show ?thesis by (simp add: lc sv)
  next
    case False
    then have "Max (others pv (Some c)) \<in> others pv (Some c)" using ofin by (rule_tac Max_in)
    with sub have "0 \<le> Max (others pv (Some c))" using nonneg by blast
    then have "Max (insert (- 1) (others pv (Some c))) = Max (others pv (Some c))"
      "0 \<le> Max (insert (- 1) (others pv (Some c)))"
      using ofin False by (simp_all add: max.absorb2)
    with False show ?thesis by (simp add: lc sv bv)
  qed
  from e ok pvq ne c lp bp lead nm fe show ?thesis by auto
qed

lemma party_codes_all: "q \<in> set party_codes"
  by (cases q) (simp_all add: party_codes_def)

lemma party_codes_distinct: "distinct party_codes"
  by (simp add: party_codes_def)

lemma set_map_filter: "set (List.map_filter f xs) = {x. \<exists>q\<in>set xs. f q = Some x}"
  by (auto simp: List.map_filter_def image_iff) force

lemma present_values_set:
  assumes "\<forall>q. party_value p q = dict_get pv q" "distinct (map fst pv)"
  shows "set (present_values p) = present pv"
  using assms
  by (auto simp: present_values_def set_map_filter present_def dict_get_iff party_codes_all)

lemma other_values_set:
  assumes "\<forall>q. party_value p q = dict_get pv q" "distinct (map fst pv)"
  shows "set (other_values p b) = others pv (Some b)"
  using assms
  by (auto simp: other_values_def set_map_filter others_def dict_get_iff party_codes_all)

lemma length_map_filter_remove:
  assumes "distinct xs" "b \<in> set xs" "f b = Some v"
  shows "length (List.map_filter f xs) =
         Suc (length (List.map_filter f (filter (\<lambda>q. q \<noteq> b) xs)))"
  using assms
proof (induction xs)
  case Nil
  then show ?case by simp
next
  case (Cons a xs)
  show ?case
  proof (cases "a = b")
    case True
    with Cons.prems have "b \<notin> set xs" by simp
    then have "filter (\<lambda>q. q \<noteq> b) xs = xs" by (auto simp: filter_id_conv)
    with True Cons.prems(3) show ?thesis by (simp add: List.map_filter_def)
  next
    case False
    with Cons.prems have "distinct xs" "b \<in> set xs" by simp_all
    from Cons.IH[OF this Cons.prems(3)] False show ?thesis
      by (cases "f a") (simp_all add: List.map_filter_def)
  qed
qed

lemma present_other_length:
  "party_value p b = Some v \<Longrightarrow> length (present_values p) = Suc (length (other_values p b))"
  unfolding present_values_def other_values_def
  by (rule length_map_filter_remove[OF party_codes_distinct party_codes_all])

lemma collect_set:
  "efold (collect_row y cm url) rows acc = Inr ps \<Longrightarrow> q \<in> set ps \<Longrightarrow>
   q \<in> set acc \<or> (\<exists>row\<in>set rows. row_to_poll y cm url row = Inr (Some q))"
proof (induction rows arbitrary: acc)
  case Nil
  then show ?case by simp
next
  case (Cons row rows)
  obtain r where r: "row_to_poll y cm url row = Inr r" using row_to_poll_total by blast
  let ?acc = "case r of None \<Rightarrow> acc | Some p \<Rightarrow> acc @ [p]"
  have "collect_row y cm url row acc = Inr ?acc"
    using r by (simp add: collect_row_def ebind_def)
  with Cons.prems(1) have "efold (collect_row y cm url) rows ?acc = Inr ps"
    by simp
  from Cons.IH[OF this Cons.prems(2)]
  show ?case using r by (cases r) auto
qed

lemma sort_polls_set: "set (sort_polls ps) = set ps"
  by (simp add: sort_polls_def)

lemma scrape_emits:
  assumes "scrape_polls y tables url = Inr polls" "p \<in> set polls"
  shows "\<exists>t grid h row.
           find is_target tables = Some t \<and> expand_rowspans t = Inr grid \<and>
           find_header grid = Some (h, identify_columns (grid ! h)) \<and>
           row \<in> set (drop (h + 1) grid) \<and>
           row_to_poll y (identify_columns (grid ! h)) url row = Inr (Some p)"
proof -
  from assms have ne: "polls \<noteq> []" by auto
  have "find is_target tables \<noteq> None"
  proof
    assume "find is_target tables = None"
    then have "scrape_polls y tables url = Inr []" by (simp add: scrape_polls_def)
    with assms(1) ne show False by simp
  qed
  then obtain t where t: "find is_target tables = Some t" by blast
  then have tn: "tables \<noteq> []" by auto
  have "\<exists>grid. expand_rowspans t = Inr grid"
  proof (cases "expand_rowspans t")
    case (Inl e)
    with t tn have "scrape_polls y tables url = Inl e" by (simp add: scrape_polls_def ebind_def)
    with assms(1) show ?thesis by simp
  next
    case (Inr grid)
    then show ?thesis by blast
  qed
  then obtain grid where g: "expand_rowspans t = Inr grid" by blast
  have len: "3 \<le> length grid"
  proof (rule ccontr)
    assume "\<not> 3 \<le> length grid"
    then have "length grid < 3" by simp
    from small_grid_empty[OF t g this, of y url] assms(1) ne show False by simp
  qed
  note u = scrape_unfold[OF t g len, of y url]
  have "find_header grid \<noteq> None"
  proof
    assume "find_header grid = None"
    with u have "scrape_polls y tables url = Inr []" by simp
    with assms(1) ne show False by simp
  qed
  then obtain h cm where hc: "find_header grid = Some (h, cm)" by auto
  then have cm: "cm = identify_columns (grid ! h)" by (simp add: find_header_Some)
  from u hc assms(1)
  have "ebind (efold (collect_row y cm url) (drop (h + 1) grid) [])
          (\<lambda>polls. Inr (sort_polls polls)) = Inr polls" by simp
  then obtain ps where ps: "efold (collect_row y cm url) (drop (h + 1) grid) [] = Inr ps"
    and polls: "polls = sort_polls ps"
    by (cases "efold (collect_row y cm url) (drop (h + 1) grid) []") (auto simp: ebind_def)
  from assms(2) polls have "p \<in> set ps" by (simp add: sort_polls_set)
  from collect_set[OF ps this] obtain row where
    "row \<in> set (drop (h + 1) grid)" "row_to_poll y cm url row = Inr (Some p)" by auto
  with t g hc cm show ?thesis by blast
qed

section \<open>Properties of the emitted records\<close>



lemma emitted_record:
  assumes "scrape_polls y tables url = Inr polls" "p \<in> set polls"
  shows "\<exists>b mx. pollster p \<noteq> [] \<and> lead_party p = Some (party_display b) \<and>
           party_value p b = Some mx \<and> mx = Max (set (present_values p)) \<and>
           (\<forall>x\<in>set (present_values p). 0 \<le> x) \<and>
           set (other_values p b) \<subseteq> set (present_values p) \<and>
           lead_pct p = (if other_values p b = [] then None
                         else Some (py_round1 (mx - Max (set (other_values p b))))) \<and>
           length (present_values p) = Suc (length (other_values p b))"
proof -
  from scrape_emits[OF assms] obtain cm row where
    r: "row_to_poll y cm url row = Inr (Some p)" by blast
  from row_lead[OF r] obtain data pv b where
    ok: "pv_ok pv" and pvq: "\<forall>q. party_value p q = dict_get pv q"
    and fw: "first_with pv (Max (present pv)) = Some b"
    and lp: "lead_party p = Some (party_display b)"
    and lc: "lead_pct p = (if others pv (Some b) = {} then None
                         else Some (py_round1 (Max (present pv) - Max (others pv (Some b)))))"
    and nm: "pollster p \<noteq> []" by blast
  from ok have d: "distinct (map fst pv)" by (simp add: pv_ok_def)
  have ps: "set (present_values p) = present pv" using pvq d by (rule present_values_set)
  have os: "set (other_values p b) = others pv (Some b)" using pvq d by (rule other_values_set)
  from first_with_Some[OF fw] have "dict_get pv b = Some (Max (present pv))"
    using d by (simp add: dict_get_iff)
  with pvq have pb: "party_value p b = Some (Max (set (present_values p)))" by (simp add: ps)
  have nn: "\<forall>x\<in>set (present_values p). 0 \<le> x" using ok by (auto simp: ps dest: pv_ok_present)
  have sub: "set (other_values p b) \<subseteq> set (present_values p)"
    unfolding ps os by (auto simp: others_def present_def)
  have e: "(other_values p b = []) = (others pv (Some b) = {})"
    using os by (metis set_empty)
  have lc': "lead_pct p = (if other_values p b = [] then None
       else Some (py_round1 (Max (set (present_values p)) - Max (set (other_values p b)))))"
    by (simp add: lc e ps os)
  from nm lp pb nn sub lc' present_other_length[OF pb] show ?thesis by blast
qed

text \<open>
  C2. Every record in the list returned by scrape_polls has a non-empty pollster and at
  least one of the seven party fields present.
\<close>

theorem emitted_has_pollster_and_party:
  "scrape_polls y tables url = Inr polls \<and> p \<in> set polls \<longrightarrow>
   pollster p \<noteq> [] \<and>
   (con p \<noteq> None \<or> lab p \<noteq> None \<or> lib_dem p \<noteq> None \<or> reform p \<noteq> None \<or>
    green p \<noteq> None \<or> snp p \<noteq> None \<or> other p \<noteq> None)"
proof
  assume h: "scrape_polls y tables url = Inr polls \<and> p \<in> set polls"
  then have "scrape_polls y tables url = Inr polls" "p \<in> set polls" by simp_all
  from emitted_record[OF this] obtain b mx where
    nm: "pollster p \<noteq> []" and pb: "party_value p b = Some mx" by blast
  from pb have "con p \<noteq> None \<or> lab p \<noteq> None \<or> lib_dem p \<noteq> None \<or> reform p \<noteq> None \<or>
    green p \<noteq> None \<or> snp p \<noteq> None \<or> other p \<noteq> None"
    by (cases b) auto
  with nm show "pollster p \<noteq> [] \<and>
   (con p \<noteq> None \<or> lab p \<noteq> None \<or> lib_dem p \<noteq> None \<or> reform p \<noteq> None \<or>
    green p \<noteq> None \<or> snp p \<noteq> None \<or> other p \<noteq> None)" by blast
qed

theorem emitted_has_pollster_and_party_witness:
  "scrape_polls 2026 [tie_table] (ustr ''u'') = Inr [yougov_poll, opinium_poll] \<and>
   opinium_poll \<in> set [yougov_poll, opinium_poll] \<and>
   pollster opinium_poll \<noteq> [] \<and> lab opinium_poll = Some 25 \<and>
   (\<exists>q. party_value opinium_poll q \<noteq> None)"
proof -
  have m: "opinium_poll \<in> set [yougov_poll, opinium_poll]" by simp
  from emitted_has_pollster_and_party
    [of 2026 "[tie_table]" "ustr ''u''" "[yougov_poll, opinium_poll]" opinium_poll]
    tie_scrape m
  have c: "pollster opinium_poll \<noteq> [] \<and>
   (con opinium_poll \<noteq> None \<or> lab opinium_poll \<noteq> None \<or> lib_dem opinium_poll \<noteq> None \<or>
    reform opinium_poll \<noteq> None \<or> green opinium_poll \<noteq> None \<or> snp opinium_poll \<noteq> None \<or>
    other opinium_poll \<noteq> None)" by blast
  have l: "lab opinium_poll = Some 25" by (simp add: opinium_poll_def)
  then have "party_value opinium_poll Lab \<noteq> None" by simp
  then have "\<exists>q. party_value opinium_poll q \<noteq> None" by blast
  with tie_scrape m c l show ?thesis by blast
qed





end
